theory Spec2Isabelle
  imports Main "HOL-Library.Sublist"
begin

section \<open>TaskManager: the task model, the in-memory repository and the service\<close>

text \<open>
  The embedding follows \<^verbatim>\<open>src/source/index.ts\<close>: the classes \<^verbatim>\<open>Task\<close>,
  \<^verbatim>\<open>TaskRepository\<close> and \<^verbatim>\<open>TaskService\<close>. The DOM classes (\<^verbatim>\<open>TaskView\<close>,
  \<^verbatim>\<open>TaskManager\<close>) only call into the service and are not modelled.

  A \<^verbatim>\<open>Task\<close> is a JavaScript object: the repository's array holds references to
  tasks, and \<^verbatim>\<open>taskDone\<close> mutates the object that \<^verbatim>\<open>find\<close> returned. The model
  therefore has an explicit object heap. Objects are only ever allocated (nothing in
  the source frees one), so the heap is the list of all \<^verbatim>\<open>Task\<close> objects allocated
  so far and a reference is a position in it; \<^verbatim>\<open>new Task(...)\<close> appends.
\<close>

subsection \<open>Data\<close>

text \<open>
  \<^verbatim>\<open>dueDate: Date\<close>. A JavaScript date is a time value in milliseconds, or the
  invalid date that \<^verbatim>\<open>new Date(s)\<close> yields for an unparsable string.
\<close>

datatype Date = Date int | InvalidDate

text \<open>
  The fields of class \<^verbatim>\<open>Task\<close> (lines 2-9). The field \<^verbatim>\<open>id\<close> is named
  \<open>task_id\<close> here. Every id the service stores is a reading of \<^verbatim>\<open>Date.now()\<close>,
  an integer number of milliseconds, and the view passes the ids of listed tasks back
  to the service (lines 156 and 161), so ids are integers.
\<close>

record Task =
  task_id :: int
  title :: string
  description :: string
  dueDate :: Date
  status :: string

text \<open>
  The two status strings of the source: the constructor's default \<^verbatim>\<open>"pendente"\<close>
  (line 8) and the literal that \<^verbatim>\<open>taskDone\<close> writes (line 102), whose seventh
  character is U+00ED (i with acute accent).
\<close>

definition pendente :: string where
  "pendente = ''pendente''"

definition concluida :: string where
  "concluida = ''conclu'' @ [CHR 0xED] @ ''da''"

type_synonym ref = nat

text \<open>
  The program state: the object heap and the private field \<^verbatim>\<open>tasks\<close> of the one
  \<^verbatim>\<open>TaskRepository\<close> (line 38), an array of references in insertion order.
\<close>

record state =
  heap :: "Task list"
  tasks :: "ref list"

text \<open>The state at start-up: \<^verbatim>\<open>private tasks: Task[] = []\<close> and no task allocated.\<close>

definition init :: state where
  "init = \<lparr>heap = [], tasks = []\<rparr>"

text \<open>Reading through a reference; a reference beyond the heap denotes no object.\<close>

definition deref :: "Task list \<Rightarrow> ref \<Rightarrow> Task option" where
  "deref h r = (if r < length h then Some (h ! r) else None)"

text \<open>\<^verbatim>\<open>task.id\<close> for the task behind a reference.\<close>

definition id_at :: "Task list \<Rightarrow> ref \<Rightarrow> int option" where
  "id_at h r = map_option task_id (deref h r)"

text \<open>\<^verbatim>\<open>task.status\<close> for the task behind a reference.\<close>

definition status_at :: "Task list \<Rightarrow> ref \<Rightarrow> string option" where
  "status_at h r = map_option status (deref h r)"

text \<open>
  Well-formed states: every element of the array refers to an allocated object. In
  JavaScript this holds by construction; all operations below preserve it.
\<close>

definition well_formed :: "state \<Rightarrow> bool" where
  "well_formed s = list_all (\<lambda>r. r < length (heap s)) (tasks s)"

subsection \<open>Class Task\<close>

text \<open>
  The constructor (lines 3-9) with the default argument \<^verbatim>\<open>status = "pendente"\<close>:
  the field values of the new object.
\<close>

definition Task_new :: "int \<Rightarrow> string \<Rightarrow> string \<Rightarrow> Date \<Rightarrow> Task" where
  "Task_new i t d due =
     \<lparr>task_id = i, title = t, description = d, dueDate = due, status = pendente\<rparr>"

text \<open>\<^verbatim>\<open>new\<close>: the object is placed at a fresh reference, which is returned.\<close>

definition alloc :: "Task \<Rightarrow> state \<Rightarrow> ref \<times> state" where
  "alloc t s = (length (heap s), s\<lparr>heap := heap s @ [t]\<rparr>)"

text \<open>
  \<^verbatim>\<open>alterarStatus(newStatus) { this.status = newStatus; }\<close> (lines 15-17), with
  \<^verbatim>\<open>this\<close> the object at reference \<open>r\<close>.
\<close>

definition alterarStatus :: "ref \<Rightarrow> string \<Rightarrow> state \<Rightarrow> state" where
  "alterarStatus r newStatus s =
     (case deref (heap s) r of
        None \<Rightarrow> s
      | Some t \<Rightarrow> s\<lparr>heap := (heap s)[r := t\<lparr>status := newStatus\<rparr>]\<rparr>)"

subsection \<open>Class TaskRepository\<close>

text \<open>\<^verbatim>\<open>adicionarTarefa(task) { this.tasks.push(task); }\<close> (lines 44-46).\<close>

definition adicionarTarefa :: "ref \<Rightarrow> state \<Rightarrow> state" where
  "adicionarTarefa r s = s\<lparr>tasks := tasks s @ [r]\<rparr>"

text \<open>
  \<^verbatim>\<open>removeTask(id) { this.tasks = this.tasks.filter(task => task.id !== id); }\<close>
  (lines 52-54).
\<close>

definition TaskRepository_removeTask :: "int \<Rightarrow> state \<Rightarrow> state" where
  "TaskRepository_removeTask i s =
     s\<lparr>tasks := filter (\<lambda>r. id_at (heap s) r \<noteq> Some i) (tasks s)\<rparr>"

text \<open>\<^verbatim>\<open>listarTarefas() { return this.tasks; }\<close> (lines 60-62).\<close>

definition TaskRepository_listarTarefas :: "state \<Rightarrow> ref list" where
  "TaskRepository_listarTarefas s = tasks s"

text \<open>
  \<^verbatim>\<open>buscarTarefaPorId(id) { return this.tasks.find(task => task.id === id); }\<close>
  (lines 69-71); \<open>None\<close> is \<^verbatim>\<open>undefined\<close>.
\<close>

definition buscarTarefaPorId :: "int \<Rightarrow> state \<Rightarrow> ref option" where
  "buscarTarefaPorId i s = List.find (\<lambda>r. id_at (heap s) r = Some i) (tasks s)"

subsection \<open>Class TaskService\<close>

text \<open>
  \<^verbatim>\<open>createTask(title, description, dueDate)\<close> (lines 85-94). The reading of the
  clock, \<^verbatim>\<open>Date.now()\<close>, is the parameter \<open>now\<close>. The result is the reference to
  the created task and the new state.
\<close>

definition createTask :: "string \<Rightarrow> string \<Rightarrow> Date \<Rightarrow> int \<Rightarrow> state \<Rightarrow> ref \<times> state" where
  "createTask t d due now s =
     (let (task, s1) = alloc (Task_new now t d due) s;
          s2 = adicionarTarefa task s1
      in (task, s2))"

text \<open>
  \<^verbatim>\<open>taskDone(id)\<close> (lines 100-103):
  \<^verbatim>\<open>const task = this.repository.buscarTarefaPorId(id);
  if (task) task.alterarStatus(c);\<close>
  where \<^verbatim>\<open>c\<close> stands for the string literal of line 102, the constant
  \<open>concluida\<close> above. A found task is an object, hence truthy.
\<close>

definition taskDone :: "int \<Rightarrow> state \<Rightarrow> state" where
  "taskDone i s =
     (case buscarTarefaPorId i s of
        Some task \<Rightarrow> alterarStatus task concluida s
      | None \<Rightarrow> s)"

text \<open>\<^verbatim>\<open>removeTask(id) { this.repository.removeTask(id); }\<close> (lines 109-111).\<close>

definition TaskService_removeTask :: "int \<Rightarrow> state \<Rightarrow> state" where
  "TaskService_removeTask i s = TaskRepository_removeTask i s"

text \<open>\<^verbatim>\<open>listarTarefas() { return this.repository.listarTarefas(); }\<close> (lines 117-119).\<close>

definition TaskService_listarTarefas :: "state \<Rightarrow> ref list" where
  "TaskService_listarTarefas s = TaskRepository_listarTarefas s"

subsection \<open>Sequences of service calls\<close>

text \<open>
  One call of a service method, as the view and the form handler issue them
  (lines 156, 161, 186, 132). A \<open>Create\<close> carries the clock reading of its call.
\<close>

datatype call =
    Create string string Date int
  | MarkDone int
  | Remove int
  | ListAll

fun step :: "call \<Rightarrow> state \<Rightarrow> state" where
  "step (Create t d due now) s = snd (createTask t d due now s)"
| "step (MarkDone i) s = taskDone i s"
| "step (Remove i) s = TaskService_removeTask i s"
| "step ListAll s = s"

fun run :: "call list \<Rightarrow> state \<Rightarrow> state" where
  "run [] s = s"
| "run (c # cs) s = run cs (step c s)"

text \<open>The ids of the tasks in the store, in listing order.\<close>

definition stored_ids :: "state \<Rightarrow> int option list" where
  "stored_ids s = map (id_at (heap s)) (TaskService_listarTarefas s)"

subsection \<open>Two example stores\<close>

text \<open>
  The store after one creation at clock reading 1000, and the store after a second
  creation at the same reading. The theorems below are instantiated at them.
\<close>

definition one_task :: state where
  "one_task = run [Create ''Buy milk'' ''2% fat'' (Date 1704844800000) 1000] init"

definition same_clock :: state where
  "same_clock = run [Create ''Buy milk'' ''2% fat'' (Date 1704844800000) 1000,
                     Create ''Pay rent'' [] (Date 1704412800000) 1000] init"

section \<open>Basic facts\<close>

lemma pendente_neq_concluida: "pendente \<noteq> concluida"
  by (simp add: pendente_def concluida_def)

lemma Task_new_fields [simp]:
  "task_id (Task_new i t d due) = i"
  "title (Task_new i t d due) = t"
  "description (Task_new i t d due) = d"
  "dueDate (Task_new i t d due) = due"
  "status (Task_new i t d due) = pendente"
  by (simp_all add: Task_new_def)

lemma createTask_eq:
  "createTask t d due now s =
     (length (heap s),
      s\<lparr>heap := heap s @ [Task_new now t d due], tasks := tasks s @ [length (heap s)]\<rparr>)"
  by (simp add: createTask_def alloc_def adicionarTarefa_def)

lemma listar_eq: "TaskService_listarTarefas s = tasks s"
  by (simp add: TaskService_listarTarefas_def TaskRepository_listarTarefas_def)

lemma removeTask_eq:
  "TaskService_removeTask i s =
     s\<lparr>tasks := filter (\<lambda>r. id_at (heap s) r \<noteq> Some i) (tasks s)\<rparr>"
  by (simp add: TaskService_removeTask_def TaskRepository_removeTask_def)

lemma deref_append_old: "r < length h \<Longrightarrow> deref (h @ [t]) r = deref h r"
  by (simp add: deref_def nth_append)

lemma id_at_append_old: "r < length h \<Longrightarrow> id_at (h @ [t]) r = id_at h r"
  by (simp add: id_at_def deref_append_old)

lemma id_at_append_new: "id_at (h @ [t]) (length h) = Some (task_id t)"
  by (simp add: id_at_def deref_def)

lemma id_at_status_update: "id_at (h[r := (h ! r)\<lparr>status := v\<rparr>]) q = id_at h q"
  by (cases "q = r") (auto simp add: id_at_def deref_def)

lemma stored_ids_mem:
  "Some i \<in> set (stored_ids s) \<longleftrightarrow> (\<exists>r\<in>set (tasks s). id_at (heap s) r = Some i)"
  by (force simp add: stored_ids_def listar_eq)

subsection \<open>What the lookup returns\<close>

lemma find_Some_valid:
  "buscarTarefaPorId i s = Some r \<Longrightarrow>
     r \<in> set (tasks s) \<and> r < length (heap s) \<and> id_at (heap s) r = Some i"
  unfolding buscarTarefaPorId_def
  by (auto simp add: find_Some_iff id_at_def deref_def split: if_splits)

lemma find_None_stored: "buscarTarefaPorId i s = None \<longleftrightarrow> Some i \<notin> set (stored_ids s)"
  by (auto simp add: buscarTarefaPorId_def stored_ids_mem find_None_iff)

subsection \<open>The two branches of taskDone\<close>

lemma taskDone_found:
  "buscarTarefaPorId i s = Some r \<Longrightarrow>
     taskDone i s = s\<lparr>heap := (heap s)[r := (heap s ! r)\<lparr>status := concluida\<rparr>]\<rparr>"
  by (frule find_Some_valid) (simp add: taskDone_def alterarStatus_def deref_def)

lemma taskDone_absent: "buscarTarefaPorId i s = None \<Longrightarrow> taskDone i s = s"
  by (simp add: taskDone_def)

lemma tasks_taskDone: "tasks (taskDone i s) = tasks s"
  by (cases "buscarTarefaPorId i s") (simp_all add: taskDone_absent taskDone_found)

lemma length_heap_taskDone: "length (heap (taskDone i s)) = length (heap s)"
  by (cases "buscarTarefaPorId i s") (simp_all add: taskDone_absent taskDone_found)

lemma id_at_taskDone: "id_at (heap (taskDone i s)) q = id_at (heap s) q"
  by (cases "buscarTarefaPorId i s")
    (simp_all add: taskDone_absent taskDone_found id_at_status_update)

subsection \<open>Well-formedness is an invariant\<close>

lemma well_formed_init: "well_formed init"
  by (simp add: well_formed_def init_def)

lemma well_formed_step: "well_formed s \<Longrightarrow> well_formed (step c s)"
proof (cases c)
  case (Create t d due now)
  assume "well_formed s"
  then show ?thesis using Create
    by (auto simp add: well_formed_def createTask_eq list_all_iff)
next
  case (MarkDone i)
  assume "well_formed s"
  then show ?thesis using MarkDone
    by (simp add: well_formed_def tasks_taskDone length_heap_taskDone)
next
  case (Remove i)
  assume "well_formed s"
  then show ?thesis using Remove
    by (simp add: well_formed_def removeTask_eq list_all_iff)
next
  case ListAll
  assume "well_formed s"
  then show ?thesis using ListAll by simp
qed

lemma well_formed_run: "well_formed s \<Longrightarrow> well_formed (run cs s)"
  by (induction cs arbitrary: s) (simp_all add: well_formed_step)

subsection \<open>Ids after a creation\<close>

lemma stored_ids_createTask:
  assumes "well_formed s"
  shows "stored_ids (snd (createTask t d due now s)) = stored_ids s @ [Some now]"
proof -
  have "\<forall>r\<in>set (tasks s). r < length (heap s)"
    using assms by (simp add: well_formed_def list_all_iff)
  then have "map (id_at (heap s @ [Task_new now t d due])) (tasks s)
             = map (id_at (heap s)) (tasks s)"
    by (simp add: id_at_append_old)
  then show ?thesis
    by (simp add: stored_ids_def listar_eq createTask_eq id_at_append_new)
qed

text \<open>
  A creation keeps the stored ids pairwise distinct exactly when the clock reading is
  not the id of a stored task.
\<close>

lemma createTask_distinct_iff:
  assumes "well_formed s" and "distinct (stored_ids s)"
  shows "distinct (stored_ids (snd (createTask t d due now s)))
         \<longleftrightarrow> Some now \<notin> set (stored_ids s)"
  using assms by (simp add: stored_ids_createTask)

subsection \<open>Statuses\<close>

lemma status_at_append_old: "r < length h \<Longrightarrow> status_at (h @ [t]) r = status_at h r"
  by (simp add: status_at_def deref_append_old)

lemma status_at_append_new: "status_at (h @ [t]) (length h) = Some (status t)"
  by (simp add: status_at_def deref_def)

lemma status_at_Some_valid: "status_at h r = Some v \<Longrightarrow> r < length h"
  by (simp add: status_at_def deref_def split: if_splits)

lemma buscar_taskDone: "buscarTarefaPorId j (taskDone i s) = buscarTarefaPorId j s"
  by (simp add: buscarTarefaPorId_def tasks_taskDone id_at_taskDone)

lemma stored_ids_taskDone: "stored_ids (taskDone i s) = stored_ids s"
  by (simp add: stored_ids_def listar_eq tasks_taskDone id_at_taskDone)

lemma find_Some_stored: "Some i \<in> set (stored_ids s) \<Longrightarrow> \<exists>r. buscarTarefaPorId i s = Some r"
  using find_None_stored [of i s] by (cases "buscarTarefaPorId i s") simp_all

text \<open>The lookup returns the first reference, in array order, whose task has the id.\<close>

lemma find_Some_first:
  assumes "buscarTarefaPorId i s = Some r"
  shows "\<exists>pre post. tasks s = pre @ r # post \<and> Some i \<notin> set (map (id_at (heap s)) pre)"
proof -
  from assms obtain n where n: "n < length (tasks s)" "tasks s ! n = r"
    and before: "\<forall>m<n. id_at (heap s) (tasks s ! m) \<noteq> Some i"
    unfolding buscarTarefaPorId_def by (auto simp add: find_Some_iff)
  have split: "tasks s = take n (tasks s) @ r # drop (Suc n) (tasks s)"
    unfolding n(2) [symmetric] using n(1) by (rule id_take_nth_drop)
  have "Some i \<notin> set (map (id_at (heap s)) (take n (tasks s)))"
  proof
    assume "Some i \<in> set (map (id_at (heap s)) (take n (tasks s)))"
    then obtain q where q: "q \<in> set (take n (tasks s))" "id_at (heap s) q = Some i"
      by force
    then obtain m where "m < length (take n (tasks s))" "take n (tasks s) ! m = q"
      by (auto simp add: in_set_conv_nth)
    then have "m < n" "tasks s ! m = q" by simp_all
    with before q show False by blast
  qed
  with split show ?thesis by blast
qed

lemma step_status:
  assumes "r < length (heap s)"
  shows "status_at (heap (step c s)) r = status_at (heap s) r
         \<or> (status_at (heap (step c s)) r = Some concluida
            \<and> (\<exists>i. c = MarkDone i \<and> buscarTarefaPorId i s = Some r))"
proof (cases c)
  case (Create t d due now)
  then show ?thesis using assms by (simp add: createTask_eq status_at_append_old)
next
  case (MarkDone i)
  show ?thesis
  proof (cases "buscarTarefaPorId i s")
    case None
    then show ?thesis using MarkDone by (simp add: taskDone_absent)
  next
    case (Some q)
    then show ?thesis using MarkDone assms
      by (cases "r = q") (simp_all add: taskDone_found status_at_def deref_def)
  qed
next
  case (Remove i)
  then show ?thesis by (simp add: removeTask_eq)
next
  case ListAll
  then show ?thesis by simp
qed

lemma length_heap_step: "length (heap s) \<le> length (heap (step c s))"
  by (cases c) (simp_all add: createTask_eq length_heap_taskDone removeTask_eq)

lemma step_concluida:
  "status_at (heap s) r = Some concluida \<Longrightarrow> status_at (heap (step c s)) r = Some concluida"
  using step_status [of r s c] status_at_Some_valid [of "heap s" r concluida] by auto

lemma run_concluida:
  "status_at (heap s) r = Some concluida \<Longrightarrow> status_at (heap (run cs s)) r = Some concluida"
  by (induction cs arbitrary: s) (simp_all add: step_concluida)

lemma statuses_step:
  assumes "list_all (\<lambda>t. status t = pendente \<or> status t = concluida) (heap s)"
  shows "list_all (\<lambda>t. status t = pendente \<or> status t = concluida) (heap (step c s))"
proof (cases c)
  case (Create t d due now)
  then show ?thesis using assms by (simp add: createTask_eq Task_new_def)
next
  case (MarkDone i)
  show ?thesis
  proof (cases "buscarTarefaPorId i s")
    case None
    then show ?thesis using MarkDone assms by (simp add: taskDone_absent)
  next
    case (Some q)
    have "set ((heap s)[q := (heap s ! q)\<lparr>status := concluida\<rparr>])
          \<subseteq> insert ((heap s ! q)\<lparr>status := concluida\<rparr>) (set (heap s))"
      by (rule set_update_subset_insert)
    then show ?thesis using MarkDone assms Some
      by (auto simp add: taskDone_found list_all_iff)
  qed
next
  case (Remove i)
  then show ?thesis using assms by (simp add: removeTask_eq)
next
  case ListAll
  then show ?thesis using assms by simp
qed

lemma statuses_run:
  "list_all (\<lambda>t. status t = pendente \<or> status t = concluida) (heap s) \<Longrightarrow>
   list_all (\<lambda>t. status t = pendente \<or> status t = concluida) (heap (run cs s))"
  by (induction cs arbitrary: s) (simp_all add: statuses_step)

lemma reachable_status:
  assumes "r < length (heap (run cs init))"
  shows "status_at (heap (run cs init)) r = Some pendente
         \<or> status_at (heap (run cs init)) r = Some concluida"
proof -
  have "list_all (\<lambda>t. status t = pendente \<or> status t = concluida) (heap (run cs init))"
    by (rule statuses_run) (simp add: init_def)
  with assms show ?thesis
    by (simp add: list_all_length status_at_def deref_def)
qed

subsection \<open>The array stays ordered by creation\<close>

text \<open>
  A reference is the position of its object in allocation order, so an array of
  increasing references lists the tasks in the order in which they were created.
\<close>

lemma sorted_step:
  assumes "well_formed s" and "sorted_wrt (<) (tasks s)"
  shows "sorted_wrt (<) (tasks (step c s))"
proof (cases c)
  case (Create t d due now)
  have "\<forall>r\<in>set (tasks s). r < length (heap s)"
    using assms(1) by (simp add: well_formed_def list_all_iff)
  then show ?thesis using Create assms(2)
    by (simp add: createTask_eq sorted_wrt_append)
next
  case (MarkDone i)
  then show ?thesis using assms(2) by (simp add: tasks_taskDone)
next
  case (Remove i)
  then show ?thesis using assms(2) by (simp add: removeTask_eq sorted_wrt_filter)
next
  case ListAll
  then show ?thesis using assms(2) by simp
qed

lemma sorted_run:
  "well_formed s \<Longrightarrow> sorted_wrt (<) (tasks s) \<Longrightarrow> sorted_wrt (<) (tasks (run cs s))"
  by (induction cs arbitrary: s) (simp_all add: sorted_step well_formed_step)

subsection \<open>What a creation establishes\<close>

lemma find_snoc:
  "List.find P (xs @ [x])
     = (case List.find P xs of Some y \<Rightarrow> Some y | None \<Rightarrow> if P x then Some x else None)"
  by (induction xs) simp_all

lemma createTask_post:
  assumes "well_formed s" and "createTask t d due now s = (r, s')"
  shows "deref (heap s') r = Some (Task_new now t d due)
       \<and> status_at (heap s') r = Some pendente
       \<and> TaskService_listarTarefas s' = TaskService_listarTarefas s @ [r]
       \<and> r \<notin> set (TaskService_listarTarefas s)
       \<and> (\<forall>q<length (heap s). deref (heap s') q = deref (heap s) q)
       \<and> buscarTarefaPorId now s'
           = (if Some now \<in> set (stored_ids s) then buscarTarefaPorId now s else Some r)"
proof -
  from assms(2) have r: "r = length (heap s)"
    and s': "s' = s\<lparr>heap := heap s @ [Task_new now t d due], tasks := tasks s @ [r]\<rparr>"
    by (auto simp add: createTask_eq)
  have old: "\<forall>q\<in>set (tasks s). q < length (heap s)"
    using assms(1) by (simp add: well_formed_def list_all_iff)
  have fresh: "r \<notin> set (tasks s)"
    using old r by auto
  have same: "List.find (\<lambda>q. id_at (heap s @ [Task_new now t d due]) q = Some now) (tasks s)
              = List.find (\<lambda>q. id_at (heap s) q = Some now) (tasks s)"
    using old by (intro find_cong) (simp_all add: id_at_append_old)
  have "buscarTarefaPorId now s'
          = (case buscarTarefaPorId now s of Some y \<Rightarrow> Some y
             | None \<Rightarrow> Some (length (heap s)))"
    by (simp add: buscarTarefaPorId_def s' find_snoc same r id_at_append_new)
  then have look: "buscarTarefaPorId now s'
           = (if Some now \<in> set (stored_ids s) then buscarTarefaPorId now s else Some r)"
    using find_None_stored [of now s] r by (cases "buscarTarefaPorId now s") simp_all
  have "deref (heap s') r = Some (Task_new now t d due)"
    by (simp add: s' r deref_def)
  moreover have "status_at (heap s') r = Some pendente"
    by (simp add: s' r status_at_def deref_def)
  moreover have "TaskService_listarTarefas s' = TaskService_listarTarefas s @ [r]"
    by (simp add: s' listar_eq)
  moreover have "\<forall>q<length (heap s). deref (heap s') q = deref (heap s) q"
    by (simp add: s' deref_append_old)
  ultimately show ?thesis using fresh look by (simp add: listar_eq)
qed

subsection \<open>The example stores, evaluated\<close>

lemma one_task_eq:
  "one_task = \<lparr>heap = [Task_new 1000 ''Buy milk'' ''2% fat'' (Date 1704844800000)],
               tasks = [0]\<rparr>"
  by (simp add: one_task_def createTask_eq init_def)

lemma same_clock_eq:
  "same_clock = \<lparr>heap = [Task_new 1000 ''Buy milk'' ''2% fat'' (Date 1704844800000),
                         Task_new 1000 ''Pay rent'' [] (Date 1704412800000)],
                 tasks = [0, 1]\<rparr>"
  by (simp add: same_clock_def createTask_eq init_def)

lemmas eval_simps =
  stored_ids_def listar_eq id_at_def deref_def status_at_def buscarTarefaPorId_def
  taskDone_def alterarStatus_def removeTask_eq

text \<open>
  With distinct clock readings the service behaves as its callers expect: two
  creations, \<^verbatim>\<open>taskDone\<close> on the first id and \<^verbatim>\<open>removeTask\<close> on the second leave
  the first task alone in the listing, marked as done.
\<close>

lemma distinct_clock_scenario:
  "run [Create ''Buy milk'' ''2% fat'' (Date 1704844800000) 1000,
        Create ''Pay rent'' [] (Date 1704412800000) 1001,
        MarkDone 1000, Remove 1001] init
   = \<lparr>heap = [\<lparr>task_id = 1000, title = ''Buy milk'', description = ''2% fat'',
                dueDate = Date 1704844800000, status = concluida\<rparr>,
              \<lparr>task_id = 1001, title = ''Pay rent'', description = [],
                dueDate = Date 1704412800000, status = pendente\<rparr>],
       tasks = [0]\<rparr>"
  by (simp add: createTask_eq init_def eval_simps Task_new_def)

section \<open>The claims\<close>

text \<open>
  C1. Claimed: over every sequence of \<^verbatim>\<open>createTask\<close> calls each returned task has an
  id distinct from the ids of the tasks in the store, so the store never holds two
  tasks with the same id. The id is the clock reading (line 87, commented as a unique
  id), and nothing compares it with the stored ids: two creations within the same
  millisecond, here both at reading 1000 from the empty store, leave two stored tasks
  with id 1000.
\<close>

theorem createTask_same_clock_duplicate_ids:
  "stored_ids (run [Create ''Buy milk'' ''2% fat'' (Date 1704844800000) 1000,
                    Create ''Pay rent'' [] (Date 1704412800000) 1000] init)
     = [Some 1000, Some 1000]
   \<and> \<not> distinct (stored_ids (run [Create ''Buy milk'' ''2% fat'' (Date 1704844800000) 1000,
                    Create ''Pay rent'' [] (Date 1704412800000) 1000] init))"
  by (simp add: createTask_eq init_def stored_ids_def listar_eq id_at_def deref_def)

text \<open>
  C2. In a store reached from the empty one by service calls, every allocated task
  has status \<open>pendente\<close> or \<open>concluida\<close>. One further call leaves the status of a
  task as it is, or moves it from \<open>pendente\<close> to \<open>concluida\<close>, and then the call is
  \<^verbatim>\<open>taskDone\<close> with an id whose lookup returns that task. A task that is
  \<open>concluida\<close> stays so over every sequence of calls. \<^verbatim>\<open>removeTask\<close> changes no
  task object at all: it only drops the tasks with the id from the store. A created
  task starts as \<open>pendente\<close>.
\<close>

theorem status_moves_only_pendente_to_concluida:
  assumes "s = run cs init" and "r < length (heap s)"
  shows "(status_at (heap s) r = Some pendente \<or> status_at (heap s) r = Some concluida)
       \<and> (status_at (heap (step c s)) r = status_at (heap s) r
          \<or> (status_at (heap s) r = Some pendente
             \<and> status_at (heap (step c s)) r = Some concluida
             \<and> (\<exists>i. c = MarkDone i \<and> buscarTarefaPorId i s = Some r)))
       \<and> (status_at (heap s) r = Some concluida
            \<longrightarrow> status_at (heap (run cs' s)) r = Some concluida)
       \<and> heap (step (Remove i) s) = heap s
       \<and> Some i \<notin> set (stored_ids (step (Remove i) s))
       \<and> status_at (heap (step (Create t d due now) s)) (length (heap s)) = Some pendente"
proof -
  have a: "status_at (heap s) r = Some pendente \<or> status_at (heap s) r = Some concluida"
    using assms reachable_status by simp
  have b: "status_at (heap (step c s)) r = status_at (heap s) r
          \<or> (status_at (heap s) r = Some pendente
             \<and> status_at (heap (step c s)) r = Some concluida
             \<and> (\<exists>i. c = MarkDone i \<and> buscarTarefaPorId i s = Some r))"
    using step_status [OF assms(2), of c] a by auto
  have c: "status_at (heap s) r = Some concluida
            \<longrightarrow> status_at (heap (run cs' s)) r = Some concluida"
    by (simp add: run_concluida)
  have d: "heap (step (Remove i) s) = heap s"
    by (simp add: removeTask_eq)
  have e: "Some i \<notin> set (stored_ids (step (Remove i) s))"
    by (simp add: stored_ids_mem removeTask_eq)
  have f: "status_at (heap (step (Create t d due now) s)) (length (heap s)) = Some pendente"
    by (simp add: createTask_eq status_at_append_new Task_new_def)
  from a b c d e f show ?thesis by blast
qed

theorem status_moves_only_pendente_to_concluida_witness:
  "status_at (heap one_task) 0 = Some pendente
   \<and> status_at (heap (step (MarkDone 1000) one_task)) 0 = Some concluida
   \<and> status_at (heap (run [MarkDone 1000, Remove 1000]
                        (run [Create ''Buy milk'' ''2% fat'' (Date 1704844800000) 1000,
                              MarkDone 1000] init))) 0 = Some concluida"
proof -
  define s2 where
    "s2 = run [Create ''Buy milk'' ''2% fat'' (Date 1704844800000) 1000, MarkDone 1000] init"
  have s2: "s2 = one_task\<lparr>heap := [(Task_new 1000 ''Buy milk'' ''2% fat''
                                      (Date 1704844800000))\<lparr>status := concluida\<rparr>]\<rparr>"
    by (simp add: s2_def createTask_eq init_def one_task_eq eval_simps)
  have r1: "0 < length (heap one_task)"
    by (simp add: one_task_eq)
  have r2: "0 < length (heap s2)"
    by (simp add: s2)
  have p: "status_at (heap one_task) 0 = Some pendente"
    by (simp add: one_task_eq status_at_def deref_def)
  have m: "status_at (heap (step (MarkDone 1000) one_task)) 0 \<noteq> status_at (heap one_task) 0"
    by (simp add: one_task_eq eval_simps pendente_neq_concluida [symmetric])
  have d: "status_at (heap s2) 0 = Some concluida"
    by (simp add: s2 status_at_def deref_def)
  from status_moves_only_pendente_to_concluida
         [OF one_task_def r1, of "MarkDone 1000" "[]" 0 "[]" "[]" "Date 0" 0] m
  have a: "status_at (heap (step (MarkDone 1000) one_task)) 0 = Some concluida"
    by blast
  from status_moves_only_pendente_to_concluida
         [OF s2_def r2, of ListAll "[MarkDone 1000, Remove 1000]" 0 "[]" "[]" "Date 0" 0] d
  have "status_at (heap (run [MarkDone 1000, Remove 1000] s2)) 0 = Some concluida"
    by blast
  then have b: "status_at (heap (run [MarkDone 1000, Remove 1000]
                   (run [Create ''Buy milk'' ''2% fat'' (Date 1704844800000) 1000,
                         MarkDone 1000] init))) 0 = Some concluida"
    by (simp only: s2_def)
  from p a b show ?thesis by blast
qed

text \<open>
  C3. Claimed: for every store and all inputs, after \<^verbatim>\<open>createTask\<close> the lookup of the
  returned task's id returns that task. With the store holding a task created at clock
  reading 1000, a second creation at the same reading returns the new task (reference
  1) with id 1000, and the lookup of id 1000 returns the older task (reference 0).
  Lemma \<open>createTask_post\<close> above has the rest of the claim, for every well-formed store:
  the new task is \<open>pendente\<close>, it is appended after the previous entries, it occurs
  once, and the lookup returns it when no stored task has the clock reading as id.
\<close>

theorem createTask_same_clock_lookup_returns_older_task:
  "fst (createTask ''Pay rent'' [] (Date 1704412800000) 1000
          (run [Create ''Buy milk'' ''2% fat'' (Date 1704844800000) 1000] init)) = 1
   \<and> id_at (heap (snd (createTask ''Pay rent'' [] (Date 1704412800000) 1000
          (run [Create ''Buy milk'' ''2% fat'' (Date 1704844800000) 1000] init)))) 1 = Some 1000
   \<and> buscarTarefaPorId 1000 (snd (createTask ''Pay rent'' [] (Date 1704412800000) 1000
          (run [Create ''Buy milk'' ''2% fat'' (Date 1704844800000) 1000] init))) = Some 0
   \<and> buscarTarefaPorId 1000 (snd (createTask ''Pay rent'' [] (Date 1704412800000) 1000
          (run [Create ''Buy milk'' ''2% fat'' (Date 1704844800000) 1000] init)))
       \<noteq> Some (fst (createTask ''Pay rent'' [] (Date 1704412800000) 1000
          (run [Create ''Buy milk'' ''2% fat'' (Date 1704844800000) 1000] init)))"
  by (simp add: createTask_eq init_def id_at_def deref_def buscarTarefaPorId_def)

text \<open>
  C4. \<^verbatim>\<open>listarTarefas\<close> returns the array as it is. An insertion appends to it, a
  removal returns the array without the removed entries (a subsequence of it, the
  remaining entries in their previous order), and \<^verbatim>\<open>taskDone\<close> leaves the array as
  it is. In every store reached from the empty one the listing is in order of
  creation: its references increase.
\<close>

theorem listing_keeps_insertion_order:
  "TaskService_listarTarefas s = tasks s
   \<and> TaskService_listarTarefas (adicionarTarefa r s) = TaskService_listarTarefas s @ [r]
   \<and> TaskService_listarTarefas (snd (createTask t d due now s))
       = TaskService_listarTarefas s @ [fst (createTask t d due now s)]
   \<and> TaskService_listarTarefas (TaskService_removeTask i s)
       = filter (\<lambda>r. id_at (heap s) r \<noteq> Some i) (TaskService_listarTarefas s)
   \<and> subseq (TaskService_listarTarefas (TaskService_removeTask i s)) (TaskService_listarTarefas s)
   \<and> TaskService_listarTarefas (taskDone i s) = TaskService_listarTarefas s
   \<and> sorted_wrt (<) (TaskService_listarTarefas (run cs init))"
proof -
  have "sorted_wrt (<) (tasks (run cs init))"
    by (rule sorted_run) (simp_all add: well_formed_init, simp add: init_def)
  then show ?thesis
    by (simp add: listar_eq adicionarTarefa_def createTask_eq removeTask_eq tasks_taskDone)
qed

text \<open>
  C5. \<^verbatim>\<open>removeTask\<close> keeps exactly the entries whose id differs from the given one
  and changes no task object; afterwards no listed task has the id; a second removal
  of the same id returns the state unchanged. No branch fails.
\<close>

theorem removeTask_removes_every_match:
  "TaskService_listarTarefas (TaskService_removeTask i s)
     = filter (\<lambda>r. id_at (heap s) r \<noteq> Some i) (TaskService_listarTarefas s)
   \<and> heap (TaskService_removeTask i s) = heap s
   \<and> Some i \<notin> set (stored_ids (TaskService_removeTask i s))
   \<and> TaskService_removeTask i (TaskService_removeTask i s) = TaskService_removeTask i s"
  by (simp add: listar_eq removeTask_eq stored_ids_mem)

text \<open>
  C6. When a stored task has the id, \<^verbatim>\<open>taskDone\<close> sets the status of the task that
  the lookup returns, a stored task with that id, to \<open>concluida\<close>; when no stored
  task has the id, it returns the state unchanged.
\<close>

theorem taskDone_marks_found_task:
  "(Some i \<in> set (stored_ids s) \<longrightarrow>
      (\<exists>r t. buscarTarefaPorId i s = Some r \<and> r \<in> set (TaskService_listarTarefas s)
             \<and> deref (heap s) r = Some t \<and> task_id t = i
             \<and> deref (heap (taskDone i s)) r = Some (t\<lparr>status := concluida\<rparr>)))
   \<and> (Some i \<notin> set (stored_ids s) \<longrightarrow> taskDone i s = s)"
proof (intro conjI impI)
  assume "Some i \<in> set (stored_ids s)"
  then obtain r where r: "buscarTarefaPorId i s = Some r"
    using find_Some_stored by blast
  from find_Some_valid [OF r]
  have v: "r \<in> set (tasks s)" "r < length (heap s)" "id_at (heap s) r = Some i"
    by simp_all
  have "deref (heap s) r = Some (heap s ! r)" "task_id (heap s ! r) = i"
    using v by (simp_all add: deref_def id_at_def)
  moreover have "deref (heap (taskDone i s)) r = Some ((heap s ! r)\<lparr>status := concluida\<rparr>)"
    using v by (simp add: taskDone_found [OF r] deref_def)
  ultimately show "\<exists>r t. buscarTarefaPorId i s = Some r \<and> r \<in> set (TaskService_listarTarefas s)
             \<and> deref (heap s) r = Some t \<and> task_id t = i
             \<and> deref (heap (taskDone i s)) r = Some (t\<lparr>status := concluida\<rparr>)"
    using r v(1) by (simp add: listar_eq)
next
  assume "Some i \<notin> set (stored_ids s)"
  then show "taskDone i s = s"
    by (simp add: taskDone_absent find_None_stored)
qed

theorem taskDone_marks_found_task_witness:
  "Some 1000 \<in> set (stored_ids one_task)
   \<and> (\<exists>r t. buscarTarefaPorId 1000 one_task = Some r
          \<and> r \<in> set (TaskService_listarTarefas one_task)
          \<and> deref (heap one_task) r = Some t \<and> task_id t = 1000
          \<and> deref (heap (taskDone 1000 one_task)) r = Some (t\<lparr>status := concluida\<rparr>))
   \<and> Some 7 \<notin> set (stored_ids one_task)
   \<and> taskDone 7 one_task = one_task"
proof -
  have h1: "Some 1000 \<in> set (stored_ids one_task)"
    by (simp add: one_task_eq stored_ids_def listar_eq id_at_def deref_def)
  have h2: "Some 7 \<notin> set (stored_ids one_task)"
    by (simp add: one_task_eq stored_ids_def listar_eq id_at_def deref_def)
  from taskDone_marks_found_task [of 1000 one_task] h1
  have a: "\<exists>r t. buscarTarefaPorId 1000 one_task = Some r
          \<and> r \<in> set (TaskService_listarTarefas one_task)
          \<and> deref (heap one_task) r = Some t \<and> task_id t = 1000
          \<and> deref (heap (taskDone 1000 one_task)) r = Some (t\<lparr>status := concluida\<rparr>)"
    by blast
  from taskDone_marks_found_task [of 7 one_task] h2
  have b: "taskDone 7 one_task = one_task"
    by blast
  from h1 a h2 b show ?thesis by blast
qed

text \<open>
  C7. For an id that no stored task has, \<^verbatim>\<open>taskDone\<close> and \<^verbatim>\<open>removeTask\<close> return
  the state they were given: the same array of the same tasks, every field of every
  task as before. Neither has a failing branch.
\<close>

theorem absent_id_no_change:
  assumes "Some i \<notin> set (stored_ids s)"
  shows "taskDone i s = s \<and> TaskService_removeTask i s = s"
proof
  show "taskDone i s = s"
    using assms by (simp add: taskDone_absent find_None_stored)
next
  have "\<forall>r\<in>set (tasks s). id_at (heap s) r \<noteq> Some i"
    using assms by (simp add: stored_ids_mem)
  then have "filter (\<lambda>r. id_at (heap s) r \<noteq> Some i) (tasks s) = tasks s"
    by (simp add: filter_id_conv)
  then show "TaskService_removeTask i s = s"
    by (simp add: removeTask_eq)
qed

theorem absent_id_no_change_witness:
  "Some 7 \<notin> set (stored_ids same_clock)
   \<and> taskDone 7 same_clock = same_clock
   \<and> TaskService_removeTask 7 same_clock = same_clock"
proof -
  have h: "Some 7 \<notin> set (stored_ids same_clock)"
    by (simp add: same_clock_eq stored_ids_def listar_eq id_at_def deref_def)
  from h absent_id_no_change [OF h] show ?thesis by blast
qed

subsection \<open>Marking twice, and which tasks end up done\<close>

text \<open>
  \<^verbatim>\<open>taskDone\<close> marks the task that the lookup returns; a second call with the same
  id returns the state of the first; and when the stored ids are pairwise distinct,
  every stored task with the id is \<open>concluida\<close> afterwards.
\<close>

lemma taskDone_lookup_done:
  assumes "buscarTarefaPorId i s = Some r"
  shows "status_at (heap (taskDone i s)) r = Some concluida"
proof -
  from find_Some_valid [OF assms] have "r < length (heap s)" by simp
  then show ?thesis
    by (simp add: taskDone_found [OF assms] status_at_def deref_def)
qed

lemma taskDone_twice: "taskDone i (taskDone i s) = taskDone i s"
proof (cases "buscarTarefaPorId i s")
  case None
  then show ?thesis by (simp add: taskDone_absent)
next
  case (Some r)
  from find_Some_valid [OF Some] have v: "r < length (heap s)" by simp
  have r': "buscarTarefaPorId i (taskDone i s) = Some r"
    using Some by (simp add: buscar_taskDone)
  have e: "taskDone i s = s\<lparr>heap := (heap s)[r := (heap s ! r)\<lparr>status := concluida\<rparr>]\<rparr>"
    by (rule taskDone_found [OF Some])
  have "taskDone i (taskDone i s)
        = (taskDone i s)\<lparr>heap := (heap (taskDone i s))
             [r := (heap (taskDone i s) ! r)\<lparr>status := concluida\<rparr>]\<rparr>"
    by (rule taskDone_found [OF r'])
  also have "\<dots> = taskDone i s"
    using v by (simp add: e)
  finally show ?thesis .
qed

lemma taskDone_every_match_done_if_distinct:
  assumes "distinct (stored_ids s)"
    and "r \<in> set (TaskService_listarTarefas s)" and "id_at (heap s) r = Some i"
  shows "status_at (heap (taskDone i s)) r = Some concluida"
proof -
  have "Some i \<in> set (stored_ids s)"
    using assms(2,3) by (auto simp add: stored_ids_mem listar_eq)
  then obtain q where q: "buscarTarefaPorId i s = Some q"
    using find_Some_stored by blast
  from find_Some_valid [OF q]
  have v: "q \<in> set (tasks s)" "id_at (heap s) q = Some i" by simp_all
  have "inj_on (id_at (heap s)) (set (tasks s))"
    using assms(1) by (simp add: stored_ids_def listar_eq distinct_map)
  moreover have "r \<in> set (tasks s)"
    using assms(2) by (simp add: listar_eq)
  moreover have "id_at (heap s) q = id_at (heap s) r"
    using v(2) assms(3) by simp
  ultimately have "q = r"
    using v(1) by (blast dest: inj_onD)
  with taskDone_lookup_done [OF q] show ?thesis by simp
qed

text \<open>
  C8. Claimed: in every store in which a task with the given id exists, after
  \<^verbatim>\<open>taskDone\<close> that task is \<open>concluida\<close>, and a second call leaves the state as it
  is. After two creations at the same clock reading 1000 (the duplicate ids of C1)
  both stored tasks have id 1000; \<^verbatim>\<open>taskDone\<close> with id 1000 marks the first and the
  second stays \<open>pendente\<close>, also after a second call. The lemmas above have what holds
  in every store: the looked-up task is marked, a second call changes nothing, and
  with pairwise distinct stored ids every stored task with the id is marked.
\<close>

theorem taskDone_same_id_later_task_stays_pendente:
  "stored_ids (run [Create ''Buy milk'' ''2% fat'' (Date 1704844800000) 1000,
                    Create ''Pay rent'' [] (Date 1704412800000) 1000,
                    MarkDone 1000] init)
     = [Some 1000, Some 1000]
   \<and> map (status_at (heap (run [Create ''Buy milk'' ''2% fat'' (Date 1704844800000) 1000,
                                Create ''Pay rent'' [] (Date 1704412800000) 1000,
                                MarkDone 1000] init)))
         (TaskService_listarTarefas
            (run [Create ''Buy milk'' ''2% fat'' (Date 1704844800000) 1000,
                  Create ''Pay rent'' [] (Date 1704412800000) 1000,
                  MarkDone 1000] init))
     = [Some concluida, Some pendente]
   \<and> map (status_at (heap (run [Create ''Buy milk'' ''2% fat'' (Date 1704844800000) 1000,
                                Create ''Pay rent'' [] (Date 1704412800000) 1000,
                                MarkDone 1000, MarkDone 1000] init)))
         (TaskService_listarTarefas
            (run [Create ''Buy milk'' ''2% fat'' (Date 1704844800000) 1000,
                  Create ''Pay rent'' [] (Date 1704412800000) 1000,
                  MarkDone 1000, MarkDone 1000] init))
     = [Some concluida, Some pendente]"
  by (simp add: createTask_eq init_def eval_simps)

text \<open>
  C9. When a stored task has the id, \<^verbatim>\<open>taskDone\<close> changes one task object, the
  first in the array with that id, and of it only the status: its id, title,
  description and due date are as before, every other task object is as before, no
  object is allocated, and the array (number and order of entries) is as before.
\<close>

theorem taskDone_changes_only_status_of_first_match:
  assumes "Some i \<in> set (stored_ids s)"
  shows "\<exists>r pre post t.
           TaskService_listarTarefas s = pre @ r # post
         \<and> Some i \<notin> set (map (id_at (heap s)) pre)
         \<and> deref (heap s) r = Some t \<and> task_id t = i
         \<and> deref (heap (taskDone i s)) r = Some (t\<lparr>status := concluida\<rparr>)
         \<and> (\<forall>q. q \<noteq> r \<longrightarrow> deref (heap (taskDone i s)) q = deref (heap s) q)
         \<and> length (heap (taskDone i s)) = length (heap s)
         \<and> TaskService_listarTarefas (taskDone i s) = TaskService_listarTarefas s"
proof -
  from assms obtain r where r: "buscarTarefaPorId i s = Some r"
    using find_Some_stored by blast
  from find_Some_valid [OF r]
  have v: "r \<in> set (tasks s)" "r < length (heap s)" "id_at (heap s) r = Some i"
    by simp_all
  from find_Some_first [OF r] obtain pre post
    where sp: "tasks s = pre @ r # post" "Some i \<notin> set (map (id_at (heap s)) pre)"
    by blast
  have t: "deref (heap s) r = Some (heap s ! r)" "task_id (heap s ! r) = i"
    using v by (simp_all add: deref_def id_at_def)
  have upd: "deref (heap (taskDone i s)) r = Some ((heap s ! r)\<lparr>status := concluida\<rparr>)"
    using v by (simp add: taskDone_found [OF r] deref_def)
  have others: "\<forall>q. q \<noteq> r \<longrightarrow> deref (heap (taskDone i s)) q = deref (heap s) q"
    by (simp add: taskDone_found [OF r] deref_def)
  have "TaskService_listarTarefas s = pre @ r # post"
    using sp(1) by (simp add: listar_eq)
  moreover have "TaskService_listarTarefas (taskDone i s) = TaskService_listarTarefas s"
    by (simp add: listar_eq tasks_taskDone)
  ultimately show ?thesis
    using sp(2) t upd others length_heap_taskDone [of i s] by blast
qed

theorem taskDone_changes_only_status_of_first_match_witness:
  "Some 1000 \<in> set (stored_ids same_clock)
   \<and> (\<exists>r pre post t.
           TaskService_listarTarefas same_clock = pre @ r # post
         \<and> Some 1000 \<notin> set (map (id_at (heap same_clock)) pre)
         \<and> deref (heap same_clock) r = Some t \<and> task_id t = 1000
         \<and> deref (heap (taskDone 1000 same_clock)) r = Some (t\<lparr>status := concluida\<rparr>)
         \<and> (\<forall>q. q \<noteq> r \<longrightarrow> deref (heap (taskDone 1000 same_clock)) q = deref (heap same_clock) q)
         \<and> length (heap (taskDone 1000 same_clock)) = length (heap same_clock)
         \<and> TaskService_listarTarefas (taskDone 1000 same_clock)
             = TaskService_listarTarefas same_clock)"
proof -
  have h: "Some 1000 \<in> set (stored_ids same_clock)"
    by (simp add: same_clock_eq stored_ids_def listar_eq id_at_def deref_def)
  from h taskDone_changes_only_status_of_first_match [OF h] show ?thesis by (rule conjI)
qed

text \<open>
  C10. When two stored tasks have the same id, the earlier of them being the first
  entry of the array with that id, the lookup returns the earlier one,
  \<^verbatim>\<open>taskDone\<close> changes the status of the earlier one only (the later task object is
  as before), and \<^verbatim>\<open>removeTask\<close> removes both: no listed task has the id afterwards.
\<close>

theorem duplicate_ids_first_match_remove_all:
  assumes "j < k" and "k < length (TaskService_listarTarefas s)"
    and "id_at (heap s) (TaskService_listarTarefas s ! j) = Some i"
    and "id_at (heap s) (TaskService_listarTarefas s ! k) = Some i"
    and "Some i \<notin> set (take j (stored_ids s))"
  shows "buscarTarefaPorId i s = Some (TaskService_listarTarefas s ! j)
       \<and> taskDone i s = s\<lparr>heap := (heap s)[TaskService_listarTarefas s ! j :=
             (heap s ! (TaskService_listarTarefas s ! j))\<lparr>status := concluida\<rparr>]\<rparr>
       \<and> (TaskService_listarTarefas s ! k \<noteq> TaskService_listarTarefas s ! j \<longrightarrow>
            deref (heap (taskDone i s)) (TaskService_listarTarefas s ! k)
              = deref (heap s) (TaskService_listarTarefas s ! k))
       \<and> TaskService_listarTarefas s ! j \<notin> set (TaskService_listarTarefas (TaskService_removeTask i s))
       \<and> TaskService_listarTarefas s ! k \<notin> set (TaskService_listarTarefas (TaskService_removeTask i s))
       \<and> Some i \<notin> set (stored_ids (TaskService_removeTask i s))"
proof -
  have jk: "j < length (tasks s)" "k < length (tasks s)"
    using assms(1,2) by (simp_all add: listar_eq)
  have idj: "id_at (heap s) (tasks s ! j) = Some i" and idk: "id_at (heap s) (tasks s ! k) = Some i"
    using assms(3,4) by (simp_all add: listar_eq)
  have before: "\<forall>m<j. id_at (heap s) (tasks s ! m) \<noteq> Some i"
  proof (intro allI impI notI)
    fix m assume m: "m < j" and eq: "id_at (heap s) (tasks s ! m) = Some i"
    have "take j (stored_ids s) ! m = id_at (heap s) (tasks s ! m)"
      using m jk(1) by (simp add: stored_ids_def listar_eq)
    moreover have "m < length (take j (stored_ids s))"
      using m jk(1) by (simp add: stored_ids_def listar_eq)
    ultimately have "Some i \<in> set (take j (stored_ids s))"
      using eq by (metis nth_mem)
    with assms(5) show False by simp
  qed
  have f: "buscarTarefaPorId i s = Some (tasks s ! j)"
    unfolding buscarTarefaPorId_def find_Some_iff
    using jk(1) idj before by blast
  have td: "taskDone i s = s\<lparr>heap := (heap s)[tasks s ! j :=
             (heap s ! (tasks s ! j))\<lparr>status := concluida\<rparr>]\<rparr>"
    by (rule taskDone_found [OF f])
  have other: "tasks s ! k \<noteq> tasks s ! j \<longrightarrow>
            deref (heap (taskDone i s)) (tasks s ! k) = deref (heap s) (tasks s ! k)"
    by (simp add: td deref_def)
  have rj: "tasks s ! j \<notin> set (tasks (TaskService_removeTask i s))"
    using idj by (simp add: removeTask_eq)
  have rk: "tasks s ! k \<notin> set (tasks (TaskService_removeTask i s))"
    using idk by (simp add: removeTask_eq)
  have none: "Some i \<notin> set (stored_ids (TaskService_removeTask i s))"
    by (simp add: stored_ids_mem removeTask_eq)
  from f td other rj rk none show ?thesis
    by (simp add: listar_eq)
qed

theorem duplicate_ids_first_match_remove_all_witness:
  "buscarTarefaPorId 1000 same_clock = Some 0
   \<and> status_at (heap (taskDone 1000 same_clock)) 0 = Some concluida
   \<and> status_at (heap (taskDone 1000 same_clock)) 1 = Some pendente
   \<and> 0 \<notin> set (TaskService_listarTarefas (TaskService_removeTask 1000 same_clock))
   \<and> 1 \<notin> set (TaskService_listarTarefas (TaskService_removeTask 1000 same_clock))"
proof -
  have l: "TaskService_listarTarefas same_clock = [0, 1]"
    by (simp add: same_clock_eq listar_eq)
  have h1: "(0::nat) < 1" by simp
  have h2: "1 < length (TaskService_listarTarefas same_clock)"
    by (simp add: l)
  have h3: "id_at (heap same_clock) (TaskService_listarTarefas same_clock ! 0) = Some 1000"
    by (simp add: l) (simp add: same_clock_eq id_at_def deref_def)
  have h4: "id_at (heap same_clock) (TaskService_listarTarefas same_clock ! 1) = Some 1000"
    by (simp add: l) (simp add: same_clock_eq id_at_def deref_def)
  have h5: "Some 1000 \<notin> set (take 0 (stored_ids same_clock))"
    by simp
  have h6: "TaskService_listarTarefas same_clock ! 1 \<noteq> TaskService_listarTarefas same_clock ! 0"
    by (simp add: l)
  note t = duplicate_ids_first_match_remove_all [OF h1 h2 h3 h4 h5]
  have a: "buscarTarefaPorId 1000 same_clock = Some 0"
    using t by (simp add: l)
  have td: "taskDone 1000 same_clock
            = same_clock\<lparr>heap := (heap same_clock)[0 := (heap same_clock ! 0)\<lparr>status := concluida\<rparr>]\<rparr>"
    using t by (simp add: l)
  have b: "status_at (heap (taskDone 1000 same_clock)) 0 = Some concluida"
    by (simp add: td) (simp add: same_clock_eq status_at_def deref_def)
  have "deref (heap (taskDone 1000 same_clock)) (TaskService_listarTarefas same_clock ! 1)
        = deref (heap same_clock) (TaskService_listarTarefas same_clock ! 1)"
    using t h6 by blast
  then have "deref (heap (taskDone 1000 same_clock)) 1 = deref (heap same_clock) 1"
    by (simp add: l)
  then have c: "status_at (heap (taskDone 1000 same_clock)) 1 = Some pendente"
    by (simp add: status_at_def) (simp add: same_clock_eq deref_def)
  have d: "0 \<notin> set (TaskService_listarTarefas (TaskService_removeTask 1000 same_clock))"
          "1 \<notin> set (TaskService_listarTarefas (TaskService_removeTask 1000 same_clock))"
    using t by (simp_all add: l)
  from a b c d show ?thesis by blast
qed

end
